theory Spec2Isabelle
  imports Complex_Main
begin

section \<open>JavaScript values\<close>

text \<open>
  Request bodies are parsed JSON. A JavaScript string is modelled as a \<open>string\<close>, one
  \<open>char\<close> per code unit; a number as a rational (every finite double is one, and the
  handlers only compare numbers with \<open>0\<close> and with an array length). \<open>JSON.parse\<close>
  never yields \<open>NaN\<close>; a literal beyond the range of a double reads as an infinity,
  which these comparisons treat as they treat any number below \<open>0\<close> or above every
  array length. Objects other than arrays are opaque: the handlers only ask for their type.
\<close>

datatype jsval =
    JUndefined
  | JNull
  | JBool bool
  | JNum rat
  | JStr string
  | JArr "jsval list"
  | JObj

text \<open>Truthiness, as \<open>!v\<close> and \<open>if (v)\<close> read it.\<close>

fun truthy :: "jsval \<Rightarrow> bool" where
  "truthy JUndefined = False"
| "truthy JNull = False"
| "truthy (JBool b) = b"
| "truthy (JNum r) = (r \<noteq> 0)"
| "truthy (JStr s) = (s \<noteq> [])"
| "truthy (JArr xs) = True"
| "truthy JObj = True"

text \<open>A header or socket property that may be absent: truthy when present and non-empty.\<close>

fun truthy_str :: "string option \<Rightarrow> bool" where
  "truthy_str None = False"
| "truthy_str (Some s) = (s \<noteq> [])"

text \<open>Property lookup on a parsed JSON object: a missing key reads as \<open>undefined\<close>.\<close>

definition field :: "(string \<times> jsval) list \<Rightarrow> string \<Rightarrow> jsval" where
  "field b k = (case map_of b k of None \<Rightarrow> JUndefined | Some v \<Rightarrow> v)"

subsection \<open>String operations\<close>

text \<open>\<open>String.prototype.trim\<close>: the white space code units below 256.\<close>

definition is_ws :: "char \<Rightarrow> bool" where
  "is_ws c = (c \<in> set [CHR 0x09, CHR 0x0A, CHR 0x0B, CHR 0x0C, CHR 0x0D, CHR 0x20, CHR 0xA0])"

definition trim :: "string \<Rightarrow> string" where
  "trim s = rev (dropWhile is_ws (rev (dropWhile is_ws s)))"

text \<open>\<open>s.split(sep)\<close> for a one-character separator; \<open>''.split(',')\<close> is \<open>['']\<close>.\<close>

fun split_on :: "char \<Rightarrow> string \<Rightarrow> string list" where
  "split_on sep [] = [[]]"
| "split_on sep (c # cs) =
     (if c = sep then [] # split_on sep cs
      else (case split_on sep cs of
              [] \<Rightarrow> [[c]]
            | x # xs \<Rightarrow> (c # x) # xs))"

section \<open>Requests and responses\<close>

text \<open>
  The parts of an Express request the handlers read: the two proxy headers, the remote
  address of \<open>req.connection\<close> and of \<open>req.socket\<close>, and the parsed body
  (\<open>None\<close> when \<open>req.body\<close> is undefined).
\<close>

record request =
  x_forwarded_for :: "string option"
  x_real_ip :: "string option"
  connection_remoteAddress :: "string option"
  socket_remoteAddress :: "string option"
  body :: "(string \<times> jsval) list option"

text \<open>Exceptions a handler's \<open>try\<close> block can catch.\<close>

datatype js_error = TypeError | SqliteConstraint

section \<open>Identity extractor (antiAbuse.js)\<close>

text \<open>
  \<open>getClientIp\<close>. The element \<open>[0]\<close> of an empty array would be \<open>undefined\<close> and
  calling \<open>.trim()\<close> on it would throw, so the result is a sum.
\<close>

definition getClientIp :: "request \<Rightarrow> js_error + string" where
  "getClientIp req =
     (if truthy_str (x_forwarded_for req) then
        (case split_on CHR '','' (the (x_forwarded_for req)) of
           [] \<Rightarrow> Inl TypeError
         | first # _ \<Rightarrow> Inr (trim first))
      else if truthy_str (x_real_ip req) then Inr (the (x_real_ip req))
      else if truthy_str (connection_remoteAddress req) then Inr (the (connection_remoteAddress req))
      else if truthy_str (socket_remoteAddress req) then Inr (the (socket_remoteAddress req))
      else Inr ''unknown'')"

text \<open>
  The precedence rule in the words of the specification: the first hop of the forwarded
  chain, else the real-address header, else the peer address, else the sentinel.
\<close>

definition present :: "string option \<Rightarrow> bool" where
  "present h = (h \<noteq> None \<and> h \<noteq> Some [])"

definition first_hop :: "string \<Rightarrow> string" where
  "first_hop chain = trim (takeWhile (\<lambda>c. c \<noteq> CHR '','') chain)"

definition peer_address :: "request \<Rightarrow> string option" where
  "peer_address req =
     (if present (connection_remoteAddress req) then connection_remoteAddress req
      else if present (socket_remoteAddress req) then socket_remoteAddress req
      else None)"

definition identity_address_spec :: "request \<Rightarrow> string" where
  "identity_address_spec req =
     (if present (x_forwarded_for req) then first_hop (the (x_forwarded_for req))
      else if present (x_real_ip req) then the (x_real_ip req)
      else (case peer_address req of Some a \<Rightarrow> a | None \<Rightarrow> ''unknown''))"

section \<open>Tally store (database.js)\<close>

text \<open>
  The two tables. A row of \<open>polls\<close> has the columns \<open>id\<close>, \<open>question\<close>, \<open>options\<close>
  (stored as JSON, read back with \<open>JSON.parse\<close>), \<open>created_at\<close> and \<open>vote_count\<close>;
  a row of \<open>votes\<close> has \<open>poll_id\<close>, \<open>option_index\<close>, \<open>ip_address\<close>, \<open>fingerprint\<close>
  and \<open>voted_at\<close>. The column \<open>option_index\<close> is declared \<open>INTEGER\<close>, which in SQLite
  is an affinity and not a constraint: a bound number that is not integral is stored as it
  is, so the column holds a rational.
\<close>

record poll_row =
  p_id :: string
  p_question :: string
  p_options :: "string list"
  p_created_at :: int
  p_vote_count :: nat

record vote_row =
  v_poll_id :: string
  v_option_index :: rat
  v_ip_address :: string
  v_fingerprint :: string
  v_voted_at :: int

record store =
  polls :: "poll_row list"
  votes :: "vote_row list"

definition empty_store :: store where
  "empty_store = \<lparr>polls = [], votes = []\<rparr>"

text \<open>The object \<open>getPoll\<close> returns: the row, with the computed \<open>results\<close> array.\<close>

record poll =
  row :: poll_row
  results :: "nat list"

text \<open>\<open>WHERE poll_id = ?\<close>\<close>

definition votes_of :: "store \<Rightarrow> string \<Rightarrow> vote_row list" where
  "votes_of s pollId = filter (\<lambda>v. v_poll_id v = pollId) (votes s)"

text \<open>
  \<open>statements.getVotesByPoll\<close>: one row \<open>(option_index, count)\<close> for each distinct
  \<open>option_index\<close> among the poll's votes.
\<close>

definition getVotesByPoll :: "store \<Rightarrow> string \<Rightarrow> (rat \<times> nat) list" where
  "getVotesByPoll s pollId =
     map (\<lambda>k. (k, length (filter (\<lambda>v. v_option_index v = k) (votes_of s pollId))))
       (remdups (map v_option_index (votes_of s pollId)))"

text \<open>
  \<open>results[k] = c\<close> for a number \<open>k\<close> below the length of the array: when \<open>k\<close> is one of
  the indices the element is replaced; otherwise (a fraction, a negative number) the
  assignment creates a named property and the elements stay as they are.
\<close>

definition set_element :: "nat list \<Rightarrow> rat \<Rightarrow> nat \<Rightarrow> nat list" where
  "set_element rs k c =
     (case find (\<lambda>i. of_nat i = k) [0..<length rs] of
        Some i \<Rightarrow> rs[i := c]
      | None \<Rightarrow> rs)"

text \<open>The body of \<open>votes.forEach\<close> in \<open>getPoll\<close>.\<close>

definition record_count :: "nat list \<Rightarrow> rat \<times> nat \<Rightarrow> nat list" where
  "record_count rs vote =
     (if fst vote < of_nat (length rs) then set_element rs (fst vote) (snd vote) else rs)"

definition getPoll :: "store \<Rightarrow> string \<Rightarrow> poll option" where
  "getPoll s pollId =
     (case find (\<lambda>p. p_id p = pollId) (polls s) of
        None \<Rightarrow> None
      | Some p \<Rightarrow>
          Some \<lparr>row = p,
                results = foldl record_count (map (\<lambda>_. 0) (p_options p)) (getVotesByPoll s pollId)\<rparr>)"

text \<open>\<open>results.reduce((a, b) => a + b, 0)\<close>\<close>

definition totalVotes :: "nat list \<Rightarrow> nat" where
  "totalVotes rs = foldl (\<lambda>a b. a + b) 0 rs"

text \<open>
  \<open>createPoll\<close>: the insert fails on the primary key when the id is taken, and the
  exception is rethrown.
\<close>

definition createPoll :: "store \<Rightarrow> string \<Rightarrow> string \<Rightarrow> string list \<Rightarrow> int \<Rightarrow> js_error + store" where
  "createPoll s ident q opts createdAt =
     (if ident \<in> set (map p_id (polls s)) then Inl SqliteConstraint
      else Inr (s\<lparr>polls := polls s @
             [\<lparr>p_id = ident, p_question = q, p_options = opts, p_created_at = createdAt,
               p_vote_count = 0\<rparr>]\<rparr>))"

text \<open>
  \<open>addVote\<close>: the insert into \<open>votes\<close> and the update of \<open>vote_count\<close> run in one
  transaction, so the store goes from the state before both to the state after both.
\<close>

definition addVote :: "store \<Rightarrow> string \<Rightarrow> rat \<Rightarrow> string \<Rightarrow> string \<Rightarrow> int \<Rightarrow> store" where
  "addVote s pollId optionIndex ipAddress fingerprint votedAt =
     s\<lparr>votes := votes s @
          [\<lparr>v_poll_id = pollId, v_option_index = optionIndex, v_ip_address = ipAddress,
            v_fingerprint = fingerprint, v_voted_at = votedAt\<rparr>],
       polls := map (\<lambda>p. if p_id p = pollId then p\<lparr>p_vote_count := p_vote_count p + 1\<rparr> else p)
                  (polls s)\<rparr>"

definition hasVotedByIP :: "store \<Rightarrow> string \<Rightarrow> string \<Rightarrow> bool" where
  "hasVotedByIP s pollId ipAddress =
     (length (filter (\<lambda>v. v_poll_id v = pollId \<and> v_ip_address v = ipAddress) (votes s)) > 0)"

definition hasVotedByFingerprint :: "store \<Rightarrow> string \<Rightarrow> string \<Rightarrow> bool" where
  "hasVotedByFingerprint s pollId fingerprint =
     (length (filter (\<lambda>v. v_poll_id v = pollId \<and> v_fingerprint v = fingerprint) (votes s)) > 0)"

text \<open>\<open>getRecentVoteCount\<close>, with the reading of \<open>Date.now()\<close> as the argument \<open>now\<close>.\<close>

definition getRecentVoteCount :: "store \<Rightarrow> string \<Rightarrow> string \<Rightarrow> int \<Rightarrow> int \<Rightarrow> nat" where
  "getRecentVoteCount s pollId ipAddress timeWindowMs now =
     length (filter (\<lambda>v. v_poll_id v = pollId \<and> v_ip_address v = ipAddress
                          \<and> v_voted_at v > now - timeWindowMs) (votes s))"

section \<open>Validation (antiAbuse.js, pollGenerator.js, validation.js)\<close>

text \<open>The error texts of the JSON replies, one constructor for each.\<close>

datatype failure =
    Invalid_poll_ID
  | Invalid_option_index
  | Invalid_fingerprint
  | Question_is_required
  | Question_is_too_long
  | Options_must_be_an_array
  | At_least_2_options_are_required
  | Maximum_10_options_allowed
  | Option_is_invalid nat
  | Option_is_too_long nat
  | Poll_ID_is_required
  | Invalid_poll_ID_format
  | Request_body_is_required
  | Poll_not_found
  | You_have_already_voted
  | Too_many_votes
  | Failed_to_submit_vote
  | Failed_to_create_poll
  | Internal_server_error
  | Too_many_requests
  | Too_many_vote_attempts
  | Too_many_polls_created

definition VOTES_PER_IP_PER_POLL :: nat where
  "VOTES_PER_IP_PER_POLL = 1"

definition VOTE_RATE_WINDOW_MS :: int where
  "VOTE_RATE_WINDOW_MS = 5 * 60 * 1000"

text \<open>
  \<open>validateVoteData\<close>. Where the source answers \<open>{ valid: true }\<close> the model returns the
  three values at the types the checks have established.
\<close>

definition validateVoteData :: "jsval \<Rightarrow> jsval \<Rightarrow> jsval \<Rightarrow> failure + (string \<times> rat \<times> string)" where
  "validateVoteData pollId optionIndex fingerprint =
     (case pollId of
        JStr pid \<Rightarrow>
          if pid = [] then Inl Invalid_poll_ID
          else (case optionIndex of
                  JNum oi \<Rightarrow>
                    if oi < 0 then Inl Invalid_option_index
                    else (case fingerprint of
                            JStr fp \<Rightarrow> if fp = [] then Inl Invalid_fingerprint else Inr (pid, oi, fp)
                          | _ \<Rightarrow> Inl Invalid_fingerprint)
                | _ \<Rightarrow> Inl Invalid_option_index)
      | _ \<Rightarrow> Inl Invalid_poll_ID)"

definition alphabet :: string where
  "alphabet = ''123456789ABCDEFGHJKLMNPQRSTUVWXYZabcdefghijkmnopqrstuvwxyz''"

definition isValidPollId :: "jsval \<Rightarrow> bool" where
  "isValidPollId pollId =
     (case pollId of
        JStr pid \<Rightarrow> pid \<noteq> [] \<and> length pid = 8 \<and> list_all (\<lambda>c. c \<in> set alphabet) pid
      | _ \<Rightarrow> False)"

section \<open>HTTP replies\<close>

datatype payload =
    Failure failure
  | VoteRecorded "nat list" nat
  | PollCreated string string "string list"

datatype response = Response (status: nat) (payload: payload)

text \<open>The calls a handler makes on \<open>dbHelpers\<close>, in the order it makes them.\<close>

datatype db_call =
    GetPoll string
  | HasVotedByIP string string
  | HasVotedByFingerprint string string
  | GetRecentVoteCount string string int
  | AddVote string rat string string
  | CreatePoll string

text \<open>What handling one request does: the reply, the store afterwards, the calls made.\<close>

record outcome =
  reply :: response
  db :: store
  calls :: "db_call list"

definition reject :: "nat \<Rightarrow> failure \<Rightarrow> store \<Rightarrow> db_call list \<Rightarrow> outcome" where
  "reject code e s cs = \<lparr>reply = Response code (Failure e), db = s, calls = cs\<rparr>"

text \<open>
  The middleware of validation.js: \<open>Some r\<close> when it answers \<open>r\<close> itself, \<open>None\<close> when
  it calls \<open>next()\<close>. On these routes \<open>req.params.pollId\<close> is undefined. Reading
  \<open>req.body.pollId\<close> of an undefined body throws, which the error handler of the
  application answers with 500.
\<close>

definition requireBody :: "request \<Rightarrow> response option" where
  "requireBody req =
     (case body req of
        None \<Rightarrow> Some (Response 400 (Failure Request_body_is_required))
      | Some b \<Rightarrow> if length b = 0 then Some (Response 400 (Failure Request_body_is_required)) else None)"

definition validatePollId :: "request \<Rightarrow> response option" where
  "validatePollId req =
     (case body req of
        None \<Rightarrow> Some (Response 500 (Failure Internal_server_error))
      | Some b \<Rightarrow>
          if \<not> truthy (field b ''pollId'') then Some (Response 400 (Failure Poll_ID_is_required))
          else if \<not> isValidPollId (field b ''pollId'') then Some (Response 400 (Failure Invalid_poll_ID_format))
          else None)"

section \<open>Vote route (voteRoutes.js)\<close>

text \<open>
  The handler of \<open>POST /api/votes\<close>. \<open>t_check\<close> is the clock reading inside
  \<open>getRecentVoteCount\<close>, \<open>t_commit\<close> the one inside \<open>addVote\<close>. Every exception
  inside the \<open>try\<close> block is answered with 500.
\<close>

definition vote_handler :: "request \<Rightarrow> int \<Rightarrow> int \<Rightarrow> store \<Rightarrow> outcome" where
  "vote_handler req t_check t_commit s =
     (case body req of
        None \<Rightarrow> reject 500 Failed_to_submit_vote s []
      | Some b \<Rightarrow>
     (case validateVoteData (field b ''pollId'') (field b ''optionIndex'') (field b ''fingerprint'') of
        Inl e \<Rightarrow> reject 400 e s []
      | Inr (pollId, optionIndex, fingerprint) \<Rightarrow>
     (case getClientIp req of
        Inl _ \<Rightarrow> reject 500 Failed_to_submit_vote s []
      | Inr ipAddress \<Rightarrow>
     (case getPoll s pollId of
        None \<Rightarrow> reject 404 Poll_not_found s [GetPoll pollId]
      | Some poll \<Rightarrow>
          if optionIndex \<ge> of_nat (length (p_options (row poll))) then
            reject 400 Invalid_option_index s [GetPoll pollId]
          else if hasVotedByIP s pollId ipAddress then
            reject 403 You_have_already_voted s [GetPoll pollId, HasVotedByIP pollId ipAddress]
          else if hasVotedByFingerprint s pollId fingerprint then
            reject 403 You_have_already_voted s
              [GetPoll pollId, HasVotedByIP pollId ipAddress,
               HasVotedByFingerprint pollId fingerprint]
          else if getRecentVoteCount s pollId ipAddress VOTE_RATE_WINDOW_MS t_check
                    \<ge> VOTES_PER_IP_PER_POLL then
            reject 429 Too_many_votes s
              [GetPoll pollId, HasVotedByIP pollId ipAddress,
               HasVotedByFingerprint pollId fingerprint,
               GetRecentVoteCount pollId ipAddress VOTE_RATE_WINDOW_MS]
          else
            (let s' = addVote s pollId optionIndex ipAddress fingerprint t_commit;
                 cs = [GetPoll pollId, HasVotedByIP pollId ipAddress,
                       HasVotedByFingerprint pollId fingerprint,
                       GetRecentVoteCount pollId ipAddress VOTE_RATE_WINDOW_MS,
                       AddVote pollId optionIndex ipAddress fingerprint, GetPoll pollId]
             in (case getPoll s' pollId of
                   None \<Rightarrow> reject 500 Failed_to_submit_vote s' cs
                 | Some updatedPoll \<Rightarrow>
                     \<lparr>reply = Response 200
                        (VoteRecorded (results updatedPoll) (totalVotes (results updatedPoll))),
                      db = s', calls = cs\<rparr>))))))"

text \<open>\<open>requireBody\<close>, \<open>validatePollId\<close>, then the handler.\<close>

definition vote_route :: "request \<Rightarrow> int \<Rightarrow> int \<Rightarrow> store \<Rightarrow> outcome" where
  "vote_route req t_check t_commit s =
     (case requireBody req of
        Some r \<Rightarrow> \<lparr>reply = r, db = s, calls = []\<rparr>
      | None \<Rightarrow>
          (case validatePollId req of
             Some r \<Rightarrow> \<lparr>reply = r, db = s, calls = []\<rparr>
           | None \<Rightarrow> vote_handler req t_check t_commit s))"

text \<open>
  A limiter of rateLimit.js in front of a route: over the limit it answers 429 with its
  configured message and the route is not entered. Whether a request is over the limit is
  decided by the express-rate-limit library and is an input here.
\<close>

definition limiter :: "bool \<Rightarrow> failure \<Rightarrow> (store \<Rightarrow> outcome) \<Rightarrow> store \<Rightarrow> outcome" where
  "limiter over_limit message next_handler s =
     (if over_limit then reject 429 message s [] else next_handler s)"

text \<open>\<open>app.use('/api/', apiLimiter)\<close>, then \<open>voteLimiter\<close>, then the route.\<close>

definition vote_endpoint :: "bool \<Rightarrow> bool \<Rightarrow> request \<Rightarrow> int \<Rightarrow> int \<Rightarrow> store \<Rightarrow> outcome" where
  "vote_endpoint api_over vote_over req t_check t_commit s =
     limiter api_over Too_many_requests
       (limiter vote_over Too_many_vote_attempts (vote_route req t_check t_commit)) s"

subsection \<open>The admission checks, as the specification lists them\<close>

datatype check = Structural | Duplicate_by_address | Duplicate_by_fingerprint | Velocity

definition admission_order :: "check list" where
  "admission_order = [Structural, Duplicate_by_address, Duplicate_by_fingerprint, Velocity]"

text \<open>
  When a check fails, for an attempt on \<open>poll\<close> in the store \<open>s\<close> at time \<open>now\<close>. The
  structural check asks for an integer in the range of the options.
\<close>

fun check_fails :: "store \<Rightarrow> poll \<Rightarrow> string \<Rightarrow> rat \<Rightarrow> string \<Rightarrow> string \<Rightarrow> int \<Rightarrow> check \<Rightarrow> bool" where
  "check_fails s poll pollId optionIndex ipAddress fingerprint now Structural =
     (\<not> (optionIndex \<in> \<int> \<and> 0 \<le> optionIndex
         \<and> optionIndex < of_nat (length (p_options (row poll)))))"
| "check_fails s poll pollId optionIndex ipAddress fingerprint now Duplicate_by_address =
     list_ex (\<lambda>v. v_poll_id v = pollId \<and> v_ip_address v = ipAddress) (votes s)"
| "check_fails s poll pollId optionIndex ipAddress fingerprint now Duplicate_by_fingerprint =
     list_ex (\<lambda>v. v_poll_id v = pollId \<and> v_fingerprint v = fingerprint) (votes s)"
| "check_fails s poll pollId optionIndex ipAddress fingerprint now Velocity =
     list_ex (\<lambda>v. v_poll_id v = pollId \<and> v_ip_address v = ipAddress
                   \<and> now - VOTE_RATE_WINDOW_MS < v_voted_at v) (votes s)"

text \<open>The reply that reports a failed check.\<close>

fun rejection :: "check \<Rightarrow> response" where
  "rejection Structural = Response 400 (Failure Invalid_option_index)"
| "rejection Duplicate_by_address = Response 403 (Failure You_have_already_voted)"
| "rejection Duplicate_by_fingerprint = Response 403 (Failure You_have_already_voted)"
| "rejection Velocity = Response 429 (Failure Too_many_votes)"

text \<open>The store query that evaluates a check; the structural check needs none.\<close>

fun check_query :: "string \<Rightarrow> string \<Rightarrow> string \<Rightarrow> check \<Rightarrow> db_call list" where
  "check_query pollId ipAddress fingerprint Structural = []"
| "check_query pollId ipAddress fingerprint Duplicate_by_address = [HasVotedByIP pollId ipAddress]"
| "check_query pollId ipAddress fingerprint Duplicate_by_fingerprint =
     [HasVotedByFingerprint pollId fingerprint]"
| "check_query pollId ipAddress fingerprint Velocity =
     [GetRecentVoteCount pollId ipAddress VOTE_RATE_WINDOW_MS]"

text \<open>Short-circuit evaluation: the checks that pass, and the first one that fails.\<close>

definition evaluated_checks :: "(check \<Rightarrow> bool) \<Rightarrow> check list \<Rightarrow> check list" where
  "evaluated_checks fails order =
     takeWhile (\<lambda>c. \<not> fails c) order @ take 1 (dropWhile (\<lambda>c. \<not> fails c) order)"

section \<open>Poll creation (antiAbuse.js, pollRoutes.js)\<close>

text \<open>\<open>str.replace(/c/g, r)\<close> for a single character \<open>c\<close>.\<close>

definition replace_all :: "char \<Rightarrow> string \<Rightarrow> string \<Rightarrow> string" where
  "replace_all c r s = concat (map (\<lambda>x. if x = c then r else [x]) s)"

definition sanitizeInput :: "jsval \<Rightarrow> string" where
  "sanitizeInput v =
     (case v of
        JStr str \<Rightarrow>
          take 500 (trim
            (replace_all CHR ''/'' ''&#x2F;''
              (replace_all CHR 0x27 ''&#x27;''
                (replace_all CHR 0x22 ''&quot;''
                  (replace_all CHR ''>'' ''&gt;''
                    (replace_all CHR ''<'' ''&lt;'' str))))))
      | _ \<Rightarrow> [])"

text \<open>
  The loop over the options in \<open>validatePollData\<close>, from index \<open>i\<close> on: the first
  offending option ends it with the error that names the option \<open>i + 1\<close>.
\<close>

fun validate_options :: "nat \<Rightarrow> jsval list \<Rightarrow> failure option" where
  "validate_options i [] = None"
| "validate_options i (opt # rest) =
     (case opt of
        JStr str \<Rightarrow>
          if str = [] \<or> length (trim str) = 0 then Some (Option_is_invalid (i + 1))
          else if length str > 200 then Some (Option_is_too_long (i + 1))
          else validate_options (i + 1) rest
      | _ \<Rightarrow> Some (Option_is_invalid (i + 1)))"

definition validatePollData :: "jsval \<Rightarrow> jsval \<Rightarrow> failure + (string \<times> string list)" where
  "validatePollData question opts =
     (case question of
        JStr q \<Rightarrow>
          if q = [] \<or> length (trim q) = 0 then Inl Question_is_required
          else if length q > 500 then Inl Question_is_too_long
          else (case opts of
                  JArr os \<Rightarrow>
                    if length os < 2 then Inl At_least_2_options_are_required
                    else if length os > 10 then Inl Maximum_10_options_allowed
                    else (case validate_options 0 os of
                            Some e \<Rightarrow> Inl e
                          | None \<Rightarrow> Inr (sanitizeInput question, map sanitizeInput os))
                | _ \<Rightarrow> Inl Options_must_be_an_array)
      | _ \<Rightarrow> Inl Question_is_required)"

text \<open>
  The handler of \<open>POST /api/polls\<close>. \<open>pollId\<close> is what \<open>generatePollId()\<close> returns
  (a random id), \<open>now\<close> the clock reading inside \<open>createPoll\<close>.
\<close>

definition create_poll_handler :: "request \<Rightarrow> string \<Rightarrow> int \<Rightarrow> store \<Rightarrow> outcome" where
  "create_poll_handler req pollId now s =
     (case body req of
        None \<Rightarrow> reject 500 Failed_to_create_poll s []
      | Some b \<Rightarrow>
          (case validatePollData (field b ''question'') (field b ''options'') of
             Inl e \<Rightarrow> reject 400 e s []
           | Inr (q, opts) \<Rightarrow>
               (case createPoll s pollId q opts now of
                  Inl _ \<Rightarrow> reject 500 Failed_to_create_poll s [CreatePoll pollId]
                | Inr s' \<Rightarrow>
                    \<lparr>reply = Response 201 (PollCreated pollId q opts), db = s',
                      calls = [CreatePoll pollId]\<rparr>)))"

definition create_poll_route :: "request \<Rightarrow> string \<Rightarrow> int \<Rightarrow> store \<Rightarrow> outcome" where
  "create_poll_route req pollId now s =
     (case requireBody req of
        Some r \<Rightarrow> \<lparr>reply = r, db = s, calls = []\<rparr>
      | None \<Rightarrow> create_poll_handler req pollId now s)"

definition create_poll_endpoint :: "bool \<Rightarrow> bool \<Rightarrow> request \<Rightarrow> string \<Rightarrow> int \<Rightarrow> store \<Rightarrow> outcome" where
  "create_poll_endpoint api_over create_over req pollId now s =
     limiter api_over Too_many_requests
       (limiter create_over Too_many_polls_created (create_poll_route req pollId now)) s"

text \<open>
  The limits on a creation request in the words of the specification: a non-empty question
  of at most 500 characters, and 2 to 10 options, each a non-empty string of at most 200
  characters.
\<close>

fun option_within_limits :: "jsval \<Rightarrow> bool" where
  "option_within_limits (JStr str) = (str \<noteq> [] \<and> length str \<le> 200)"
| "option_within_limits _ = False"

fun within_limits :: "jsval \<Rightarrow> jsval \<Rightarrow> bool" where
  "within_limits (JStr q) (JArr os) =
     (q \<noteq> [] \<and> length q \<le> 500 \<and> 2 \<le> length os \<and> length os \<le> 10
      \<and> list_all option_within_limits os)"
| "within_limits _ _ = False"

definition request_within_limits :: "request \<Rightarrow> bool" where
  "request_within_limits req =
     (case body req of
        None \<Rightarrow> False
      | Some b \<Rightarrow> within_limits (field b ''question'') (field b ''options''))"

section \<open>The server: store, rooms and real-time channel (index.js)\<close>

type_synonym socket_id = nat

text \<open>The two events the server emits: \<open>poll-data\<close> and \<open>poll-updated\<close>.\<close>

datatype message =
    Poll_data string string "string list" "nat list" nat
  | Poll_updated "nat list" nat

text \<open>
  The state of the process: the database, the room membership kept by Socket.io (a socket
  is in a room at most once), and the messages emitted so far with their receivers.
\<close>

record server =
  database :: store
  rooms :: "(socket_id \<times> string) list"
  sent :: "(socket_id \<times> message) list"

definition init_server :: server where
  "init_server = \<lparr>database = empty_store, rooms = [], sent = []\<rparr>"

definition room_name :: "string \<Rightarrow> string" where
  "room_name pollId = ''poll-'' @ pollId"

definition members :: "server \<Rightarrow> string \<Rightarrow> socket_id list" where
  "members srv room = map fst (filter (\<lambda>m. snd m = room) (rooms srv))"

definition join :: "socket_id \<Rightarrow> string \<Rightarrow> server \<Rightarrow> server" where
  "join sock room srv =
     (if (sock, room) \<in> set (rooms srv) then srv else srv\<lparr>rooms := rooms srv @ [(sock, room)]\<rparr>)"

definition leave :: "socket_id \<Rightarrow> string \<Rightarrow> server \<Rightarrow> server" where
  "leave sock room srv = srv\<lparr>rooms := filter (\<lambda>m. m \<noteq> (sock, room)) (rooms srv)\<rparr>"

text \<open>\<open>socket.on('join-poll', ...)\<close>; the empty string stands for a falsy \<open>pollId\<close>.\<close>

definition on_join_poll :: "socket_id \<Rightarrow> string \<Rightarrow> server \<Rightarrow> server" where
  "on_join_poll sock pollId srv =
     (if pollId = [] then srv
      else
        (let srv' = join sock (room_name pollId) srv
         in (case getPoll (database srv') pollId of
               Some poll \<Rightarrow>
                 srv'\<lparr>sent := sent srv' @
                   [(sock, Poll_data (p_id (row poll)) (p_question (row poll)) (p_options (row poll))
                            (results poll) (totalVotes (results poll)))]\<rparr>
             | None \<Rightarrow> srv')))"

text \<open>\<open>socket.on('vote-submitted', ...)\<close>: \<open>io.to(room).emit\<close> reaches every member.\<close>

definition on_vote_submitted :: "string \<Rightarrow> server \<Rightarrow> server" where
  "on_vote_submitted pollId srv =
     (if pollId = [] then srv
      else
        (case getPoll (database srv) pollId of
           Some poll \<Rightarrow>
             srv\<lparr>sent := sent srv @
               map (\<lambda>k. (k, Poll_updated (results poll) (totalVotes (results poll))))
                 (members srv (room_name pollId))\<rparr>
         | None \<Rightarrow> srv))"

definition on_leave_poll :: "socket_id \<Rightarrow> string \<Rightarrow> server \<Rightarrow> server" where
  "on_leave_poll sock pollId srv = (if pollId = [] then srv else leave sock (room_name pollId) srv)"

text \<open>
  What reaches the server, one event at a time: the two HTTP requests that write to the
  store (with the verdicts of the limiters, the generated id and the clock readings), and
  the three socket events.
\<close>

datatype event =
    Http_create_poll bool bool request string int
  | Http_vote bool bool request int int
  | Join_poll socket_id string
  | Vote_submitted socket_id string
  | Leave_poll socket_id string

fun step :: "event \<Rightarrow> server \<Rightarrow> server" where
  "step (Http_create_poll api_over create_over req pollId now) srv =
     srv\<lparr>database := db (create_poll_endpoint api_over create_over req pollId now (database srv))\<rparr>"
| "step (Http_vote api_over vote_over req t_check t_commit) srv =
     srv\<lparr>database := db (vote_endpoint api_over vote_over req t_check t_commit (database srv))\<rparr>"
| "step (Join_poll sock pollId) srv = on_join_poll sock pollId srv"
| "step (Vote_submitted sock pollId) srv = on_vote_submitted pollId srv"
| "step (Leave_poll sock pollId) srv = on_leave_poll sock pollId srv"

fun run :: "event list \<Rightarrow> server \<Rightarrow> server" where
  "run [] srv = srv"
| "run (e # es) srv = run es (step e srv)"

text \<open>A run of vote requests all of which are turned down.\<close>

fun all_rejected :: "event list \<Rightarrow> server \<Rightarrow> bool" where
  "all_rejected [] srv = True"
| "all_rejected (Http_vote api_over vote_over req t_check t_commit # es) srv =
     (status (reply (vote_endpoint api_over vote_over req t_check t_commit (database srv))) \<noteq> 200
      \<and> all_rejected es (step (Http_vote api_over vote_over req t_check t_commit) srv))"
| "all_rejected (e # es) srv = False"

section \<open>Example data\<close>

definition red_blue :: poll_row where
  "red_blue = \<lparr>p_id = ''abc12345'', p_question = ''Colour?'', p_options = [''Red'', ''Blue''],
                p_created_at = 1000, p_vote_count = 0\<rparr>"

definition red_blue_store :: store where
  "red_blue_store = \<lparr>polls = [red_blue], votes = []\<rparr>"

text \<open>A vote request for the example poll from the peer \<open>ip\<close>.\<close>

definition vote_request :: "string \<Rightarrow> string \<Rightarrow> jsval \<Rightarrow> request" where
  "vote_request ip fp k =
     \<lparr>x_forwarded_for = None, x_real_ip = None, connection_remoteAddress = Some ip,
      socket_remoteAddress = Some ip,
      body = Some [(''pollId'', JStr ''abc12345''), (''optionIndex'', k), (''fingerprint'', JStr fp)]\<rparr>"

definition create_request :: "jsval \<Rightarrow> jsval \<Rightarrow> request" where
  "create_request q os =
     \<lparr>x_forwarded_for = None, x_real_ip = None, connection_remoteAddress = Some ''10.0.0.1'',
      socket_remoteAddress = Some ''10.0.0.1'',
      body = Some [(''question'', q), (''options'', os)]\<rparr>"

text \<open>The example poll after the address \<open>10.0.0.1\<close> has voted for the first option.\<close>

definition voted_store :: store where
  "voted_store =
     \<lparr>polls = [red_blue\<lparr>p_vote_count := 1\<rparr>],
      votes = [\<lparr>v_poll_id = ''abc12345'', v_option_index = 0, v_ip_address = ''10.0.0.1'',
                v_fingerprint = ''fpA'', v_voted_at = 2000\<rparr>]\<rparr>"

text \<open>The request that creates the example poll, and a server on which socket 7 watches it.\<close>

definition create_red_blue :: event where
  "create_red_blue =
     Http_create_poll False False
       (create_request (JStr ''Colour?'') (JArr [JStr ''Red'', JStr ''Blue''])) ''abc12345'' 1000"

definition watched_server :: server where
  "watched_server = \<lparr>database = red_blue_store, rooms = [(7, ''poll-abc12345'')], sent = []\<rparr>"

section \<open>Store invariant and error classes\<close>

text \<open>
  The store is consistent when poll ids are unique, every vote belongs to a stored poll, and
  the \<open>vote_count\<close> column of every poll is the number of its vote rows.
\<close>

definition consistent :: "store \<Rightarrow> bool" where
  "consistent s =
     (distinct (map p_id (polls s))
      \<and> (\<forall>v \<in> set (votes s). v_poll_id v \<in> set (map p_id (polls s)))
      \<and> (\<forall>p \<in> set (polls s). p_vote_count p = length (votes_of s (p_id p))))"

text \<open>The 400 replies of the body check and of \<open>validatePollData\<close>.\<close>

fun validation_failure :: "failure \<Rightarrow> bool" where
  "validation_failure Request_body_is_required = True"
| "validation_failure Question_is_required = True"
| "validation_failure Question_is_too_long = True"
| "validation_failure Options_must_be_an_array = True"
| "validation_failure At_least_2_options_are_required = True"
| "validation_failure Maximum_10_options_allowed = True"
| "validation_failure (Option_is_invalid i) = True"
| "validation_failure (Option_is_too_long i) = True"
| "validation_failure _ = False"

text \<open>
  Requests whose \<open>optionIndex\<close>, when it is a number, is a whole number; and stores in
  which every vote row names one of the options of its poll.
\<close>

definition integral_index :: "request \<Rightarrow> bool" where
  "integral_index req =
     (case body req of
        None \<Rightarrow> True
      | Some b \<Rightarrow> (case field b ''optionIndex'' of JNum r \<Rightarrow> r \<in> \<int> | _ \<Rightarrow> True))"

fun integral_votes :: "event list \<Rightarrow> bool" where
  "integral_votes [] = True"
| "integral_votes (Http_vote api_over vote_over req t_check t_commit # es) =
     (integral_index req \<and> integral_votes es)"
| "integral_votes (e # es) = integral_votes es"

definition in_range :: "store \<Rightarrow> bool" where
  "in_range s =
     (\<forall>v \<in> set (votes s). \<forall>p \<in> set (polls s).
         p_id p = v_poll_id v \<longrightarrow> (\<exists>i < length (p_options p). v_option_index v = of_nat i))"


section \<open>Properties\<close>

text \<open>Unfolding sets for evaluating the model on concrete requests.\<close>

lemmas example_defs = red_blue_def red_blue_store_def vote_request_def create_request_def voted_store_def
  create_red_blue_def watched_server_def

lemmas store_defs = getPoll_def getVotesByPoll_def votes_of_def record_count_def set_element_def
  totalVotes_def addVote_def hasVotedByIP_def hasVotedByFingerprint_def getRecentVoteCount_def
  createPoll_def VOTES_PER_IP_PER_POLL_def VOTE_RATE_WINDOW_MS_def empty_store_def

lemmas route_defs = vote_endpoint_def limiter_def vote_route_def requireBody_def validatePollId_def
  isValidPollId_def alphabet_def field_def vote_handler_def validateVoteData_def getClientIp_def reject_def


lemmas create_defs = create_poll_endpoint_def create_poll_route_def create_poll_handler_def
  validatePollData_def sanitizeInput_def replace_all_def trim_def is_ws_def

lemmas server_defs = init_server_def room_name_def members_def join_def leave_def on_join_poll_def
  on_vote_submitted_def on_leave_poll_def

subsection \<open>The example, evaluated\<close>

lemma create_red_blue_db:
  "step create_red_blue init_server = \<lparr>database = red_blue_store, rooms = [], sent = []\<rparr>"
  by (simp add: example_defs store_defs route_defs create_defs server_defs)

lemma watched_server_reached:
  "run [create_red_blue, Join_poll 7 ''abc12345''] init_server
     = watched_server\<lparr>sent := [(7, Poll_data ''abc12345'' ''Colour?'' [''Red'', ''Blue''] [0, 0] 0)]\<rparr>"
  by (simp add: create_red_blue_db) (simp add: example_defs store_defs server_defs)

lemma vote_A_accepted:
  "vote_endpoint False False (vote_request ''10.0.0.1'' ''fpA'' (JNum 0)) 2000 2000 red_blue_store
     = \<lparr>reply = Response 200 (VoteRecorded [1, 0] 1), db = voted_store,
        calls = [GetPoll ''abc12345'', HasVotedByIP ''abc12345'' ''10.0.0.1'',
                 HasVotedByFingerprint ''abc12345'' ''fpA'',
                 GetRecentVoteCount ''abc12345'' ''10.0.0.1'' 300000,
                 AddVote ''abc12345'' 0 ''10.0.0.1'' ''fpA'', GetPoll ''abc12345'']\<rparr>"
  by (simp add: example_defs store_defs route_defs)

subsection \<open>Identity extractor\<close>

lemma truthy_str_present: "truthy_str h = present h"
  by (cases h) (simp_all add: present_def)

lemma split_on_nonempty: "split_on sep s \<noteq> []"
  by (induction s) (auto split: list.splits)

lemma hd_split_on: "hd (split_on sep s) = takeWhile (\<lambda>c. c \<noteq> sep) s"
  by (induction s) (auto split: list.splits simp: split_on_nonempty)

text \<open>
  C7. For every request, the identity extractor returns (never throws) the address chosen
  by the precedence forwarded-chain first hop, real-address header, peer address,
  \<open>unknown\<close>; the result depends on the request metadata only.
\<close>

theorem getClientIp_precedence:
  "getClientIp req = Inr (identity_address_spec req)"
proof (cases "present (x_forwarded_for req)")
  case True
  obtain x xs where sp: "split_on CHR '','' (the (x_forwarded_for req)) = x # xs"
    using split_on_nonempty [of "CHR '',''" "the (x_forwarded_for req)"]
    by (cases "split_on CHR '','' (the (x_forwarded_for req))") auto
  have "x = takeWhile (\<lambda>c. c \<noteq> CHR '','') (the (x_forwarded_for req))"
    using hd_split_on [of "CHR '',''" "the (x_forwarded_for req)"] sp by simp
  with True sp show ?thesis
    by (simp add: getClientIp_def identity_address_spec_def truthy_str_present first_hop_def)
next
  case False
  then show ?thesis
    by (auto simp: getClientIp_def identity_address_spec_def truthy_str_present
        peer_address_def present_def)
qed

theorem getClientIp_precedence_witness:
  "getClientIp \<lparr>x_forwarded_for = Some '' 10.0.0.1 , 172.16.0.9'', x_real_ip = Some ''192.168.1.1'',
      connection_remoteAddress = Some ''127.0.0.1'', socket_remoteAddress = None,
      body = None\<rparr> = Inr ''10.0.0.1''
   \<and> getClientIp \<lparr>x_forwarded_for = Some '''', x_real_ip = None,
      connection_remoteAddress = None, socket_remoteAddress = None,
      body = None\<rparr> = Inr ''unknown''"
  using getClientIp_precedence
    [of "\<lparr>x_forwarded_for = Some '' 10.0.0.1 , 172.16.0.9'', x_real_ip = Some ''192.168.1.1'',
      connection_remoteAddress = Some ''127.0.0.1'', socket_remoteAddress = None,
      body = None\<rparr>"]
    getClientIp_precedence
    [of "\<lparr>x_forwarded_for = Some '''', x_real_ip = None,
      connection_remoteAddress = None, socket_remoteAddress = None,
      body = None\<rparr>"]
  by (simp add: identity_address_spec_def present_def first_hop_def trim_def is_ws_def
      peer_address_def)

subsection \<open>Admission\<close>

lemma filter_nonempty_list_ex: "(filter P xs \<noteq> []) = list_ex P xs"
  by (induction xs) auto

lemma filter_Suc0_list_ex: "(Suc 0 \<le> length (filter P xs)) = list_ex P xs"
  by (induction xs) auto

lemma hasVotedByIP_iff:
  "hasVotedByIP s pid ip = list_ex (\<lambda>v. v_poll_id v = pid \<and> v_ip_address v = ip) (votes s)"
  by (simp add: hasVotedByIP_def filter_nonempty_list_ex)

lemma hasVotedByFingerprint_iff:
  "hasVotedByFingerprint s pid fp = list_ex (\<lambda>v. v_poll_id v = pid \<and> v_fingerprint v = fp) (votes s)"
  by (simp add: hasVotedByFingerprint_def filter_nonempty_list_ex)

lemma recent_iff:
  "(getRecentVoteCount s pid ip w now \<ge> VOTES_PER_IP_PER_POLL) =
     list_ex (\<lambda>v. v_poll_id v = pid \<and> v_ip_address v = ip \<and> now - w < v_voted_at v) (votes s)"
  by (simp add: getRecentVoteCount_def VOTES_PER_IP_PER_POLL_def filter_Suc0_list_ex)

lemma find_map_id: "(\<And>x. P (f x) = P x) \<Longrightarrow> find P (map f xs) = map_option f (find P xs)"
  by (induction xs) auto

lemma getPoll_addVote_Some:
  assumes "getPoll s pid = Some p"
  shows "\<exists>p'. getPoll (addVote s pid oi ip fp t) pid = Some p'"
proof -
  from assms obtain r where r: "find (\<lambda>p. p_id p = pid) (polls s) = Some r"
    by (auto simp: getPoll_def split: option.splits)
  have "find (\<lambda>p. p_id p = pid) (map (\<lambda>p. if p_id p = pid then p\<lparr>p_vote_count := p_vote_count p + 1\<rparr> else p) (polls s))
        = map_option (\<lambda>p. if p_id p = pid then p\<lparr>p_vote_count := p_vote_count p + 1\<rparr> else p) (find (\<lambda>p. p_id p = pid) (polls s))"
    by (rule find_map_id) simp
  with r show ?thesis
    by (simp add: getPoll_def addVote_def)
qed

lemma validate_nonneg: "validateVoteData a b c = Inr (pid, oi, fp) \<Longrightarrow> 0 \<le> oi"
  by (auto simp: validateVoteData_def split: jsval.splits if_splits)

lemma no_vote_no_recent:
  "\<not> hasVotedByIP s pid ip \<Longrightarrow> getRecentVoteCount s pid ip w now = 0"
  by (auto simp: hasVotedByIP_def getRecentVoteCount_def filter_empty_conv)

lemma vote_handler_cases:
  "db (vote_handler req t1 t2 s) = s \<and> status (reply (vote_handler req t1 t2 s)) \<in> {400, 403, 404, 500}
   \<or> (\<exists>pid oi ip fp p. getPoll s pid = Some p \<and> status (reply (vote_handler req t1 t2 s)) = 200
        \<and> db (vote_handler req t1 t2 s) = addVote s pid oi ip fp t2)"
proof (cases "body req")
  case None
  then show ?thesis by (simp add: vote_handler_def reject_def)
next
  case (Some b)
  show ?thesis
  proof (cases "validateVoteData (field b ''pollId'') (field b ''optionIndex'') (field b ''fingerprint'')")
    case (Inl e)
    with Some show ?thesis by (simp add: vote_handler_def reject_def)
  next
    case (Inr tr)
    obtain pid oi fp where tr: "tr = (pid, oi, fp)" by (cases tr) auto
    show ?thesis
    proof (cases "getClientIp req")
      case (Inl e)
      with Some Inr tr show ?thesis by (simp add: vote_handler_def reject_def)
    next
      case ip: (Inr ip)
      show ?thesis
      proof (cases "getPoll s pid")
        case None
        with Some Inr tr ip show ?thesis by (simp add: vote_handler_def reject_def)
      next
        case p: (Some p)
        obtain p' where p': "getPoll (addVote s pid oi ip fp t2) pid = Some p'"
          using getPoll_addVote_Some [OF p] by blast
        have nr: "\<not> hasVotedByIP s pid ip \<Longrightarrow> getRecentVoteCount s pid ip VOTE_RATE_WINDOW_MS t1 = 0"
          by (rule no_vote_no_recent)
        show ?thesis using Some Inr tr ip p p' nr
          by (auto simp: vote_handler_def reject_def Let_def VOTES_PER_IP_PER_POLL_def)
      qed
    qed
  qed
qed

lemma vote_endpoint_cases:
  "db (vote_endpoint a v req t1 t2 s) = s \<and> status (reply (vote_endpoint a v req t1 t2 s)) \<noteq> 200
   \<or> (\<exists>pid oi ip fp p. getPoll s pid = Some p \<and> status (reply (vote_endpoint a v req t1 t2 s)) = 200
        \<and> db (vote_endpoint a v req t1 t2 s) = addVote s pid oi ip fp t2)"
  using vote_handler_cases [of req t1 t2 s]
  by (auto simp: vote_endpoint_def limiter_def reject_def vote_route_def requireBody_def validatePollId_def
      split: option.splits)

lemma vote_endpoint_rejected:
  "status (reply (vote_endpoint a v req t1 t2 s)) \<noteq> 200 \<Longrightarrow> db (vote_endpoint a v req t1 t2 s) = s"
  using vote_endpoint_cases [of a v req t1 t2 s] by auto

lemma all_rejected_run: "all_rejected evs srv \<Longrightarrow> database (run evs srv) = database srv"
proof (induction evs srv rule: all_rejected.induct)
  case (1 srv)
  then show ?case by simp
next
  case (2 api_over vote_over req t_check t_commit es srv)
  let ?e = "Http_vote api_over vote_over req t_check t_commit"
  from "2.prems" have rej: "status (reply (vote_endpoint api_over vote_over req t_check t_commit (database srv))) \<noteq> 200"
    and rest: "all_rejected es (step ?e srv)"
    by simp_all
  have "database (step ?e srv) = database srv"
    using vote_endpoint_rejected [OF rej] by simp
  moreover have "database (run es (step ?e srv)) = database (step ?e srv)"
    using "2.IH" rest by simp
  ultimately show ?case by simp
qed simp_all

text \<open>
  For a vote request that reaches the admission stage with a whole-number option index, the
  checks are evaluated in the order structural, duplicate by address, duplicate by
  fingerprint, velocity: the reply is the rejection of the first check that fails, the store
  queries made are those of the checks up to and including that one, and no later check is
  queried. When none fails the vote is committed.
\<close>

lemma admission_order_short_circuit:
  assumes b: "body req = Some b"
    and v: "validateVoteData (field b ''pollId'') (field b ''optionIndex'') (field b ''fingerprint'')
              = Inr (pollId, optionIndex, fingerprint)"
    and ip: "getClientIp req = Inr ipAddress"
    and p: "getPoll s pollId = Some poll"
    and whole: "optionIndex \<in> \<int>"
  shows "(case find (check_fails s poll pollId optionIndex ipAddress fingerprint t_check) admission_order of
            Some c \<Rightarrow> reply (vote_handler req t_check t_commit s) = rejection c
                      \<and> db (vote_handler req t_check t_commit s) = s
          | None \<Rightarrow> status (reply (vote_handler req t_check t_commit s)) = 200
                    \<and> db (vote_handler req t_check t_commit s)
                        = addVote s pollId optionIndex ipAddress fingerprint t_commit)
         \<and> calls (vote_handler req t_check t_commit s) =
             GetPoll pollId #
             concat (map (check_query pollId ipAddress fingerprint)
                      (evaluated_checks (check_fails s poll pollId optionIndex ipAddress fingerprint t_check)
                         admission_order))
             @ (if find (check_fails s poll pollId optionIndex ipAddress fingerprint t_check) admission_order = None
                then [AddVote pollId optionIndex ipAddress fingerprint, GetPoll pollId] else [])"
proof -
  have nn: "0 \<le> optionIndex" using v by (rule validate_nonneg)
  obtain p' where p': "getPoll (addVote s pollId optionIndex ipAddress fingerprint t_commit) pollId = Some p'"
    using getPoll_addVote_Some [OF p] by blast
  show ?thesis
    using b v ip p p' nn whole
    by (simp add: vote_handler_def admission_order_def evaluated_checks_def reject_def
        hasVotedByIP_iff hasVotedByFingerprint_iff recent_iff Let_def not_less)
qed

lemma admission_order_short_circuit_example:
  "body (vote_request ''10.0.0.1'' ''fpB'' (JNum 1))
     = Some [(''pollId'', JStr ''abc12345''), (''optionIndex'', JNum 1), (''fingerprint'', JStr ''fpB'')]
   \<and> validateVoteData (JStr ''abc12345'') (JNum 1) (JStr ''fpB'') = Inr (''abc12345'', 1, ''fpB'')
   \<and> getClientIp (vote_request ''10.0.0.1'' ''fpB'' (JNum 1)) = Inr ''10.0.0.1''
   \<and> getPoll voted_store ''abc12345'' = Some \<lparr>row = red_blue\<lparr>p_vote_count := 1\<rparr>, results = [1, 0]\<rparr>
   \<and> reply (vote_handler (vote_request ''10.0.0.1'' ''fpB'' (JNum 1)) 5000 5001 voted_store)
       = Response 403 (Failure You_have_already_voted)
   \<and> db (vote_handler (vote_request ''10.0.0.1'' ''fpB'' (JNum 1)) 5000 5001 voted_store) = voted_store
   \<and> calls (vote_handler (vote_request ''10.0.0.1'' ''fpB'' (JNum 1)) 5000 5001 voted_store)
       = [GetPoll ''abc12345'', HasVotedByIP ''abc12345'' ''10.0.0.1'']"
proof -
  have b: "body (vote_request ''10.0.0.1'' ''fpB'' (JNum 1))
     = Some [(''pollId'', JStr ''abc12345''), (''optionIndex'', JNum 1), (''fingerprint'', JStr ''fpB'')]"
    by (simp add: vote_request_def)
  have v: "validateVoteData
             (field [(''pollId'', JStr ''abc12345''), (''optionIndex'', JNum 1), (''fingerprint'', JStr ''fpB'')] ''pollId'')
             (field [(''pollId'', JStr ''abc12345''), (''optionIndex'', JNum 1), (''fingerprint'', JStr ''fpB'')] ''optionIndex'')
             (field [(''pollId'', JStr ''abc12345''), (''optionIndex'', JNum 1), (''fingerprint'', JStr ''fpB'')] ''fingerprint'')
           = Inr (''abc12345'', 1, ''fpB'')"
    by (simp add: validateVoteData_def field_def)
  have ip: "getClientIp (vote_request ''10.0.0.1'' ''fpB'' (JNum 1)) = Inr ''10.0.0.1''"
    by (simp add: getClientIp_def vote_request_def)
  have p: "getPoll voted_store ''abc12345'' = Some \<lparr>row = red_blue\<lparr>p_vote_count := 1\<rparr>, results = [1, 0]\<rparr>"
    by (simp add: example_defs store_defs)
  have v': "validateVoteData (JStr ''abc12345'') (JNum 1) (JStr ''fpB'') = Inr (''abc12345'', 1, ''fpB'')"
    by (simp add: validateVoteData_def)
  have whole: "(1::rat) \<in> \<int>"
    by simp
  show ?thesis
    using admission_order_short_circuit [OF b v ip p whole, of 5000 5001] b v' ip p
    by (simp add: admission_order_def evaluated_checks_def voted_store_def red_blue_def)
qed

text \<open>
  C1. The claim: the admission checks run in the order structural (an integer option index
  in the range of the options), duplicate by address, duplicate by fingerprint, velocity,
  and the reply is the rejection of the first check that fails. For the option index
  \<open>1/2\<close> on the two-option example poll the first failing check is the structural one,
  whose rejection is the 400 reply \<open>Invalid option index\<close>; the handler instead goes on
  through the three later checks, commits the vote and replies 200.
\<close>

theorem structural_check_not_enforced:
  "getPoll red_blue_store ''abc12345'' = Some \<lparr>row = red_blue, results = [0, 0]\<rparr>
   \<and> find (check_fails red_blue_store \<lparr>row = red_blue, results = [0, 0]\<rparr> ''abc12345'' (1 / 2)
              ''10.0.0.1'' ''fpA'' 2000) admission_order = Some Structural
   \<and> rejection Structural = Response 400 (Failure Invalid_option_index)
   \<and> reply (vote_handler (vote_request ''10.0.0.1'' ''fpA'' (JNum (1 / 2))) 2000 2001 red_blue_store)
       = Response 200 (VoteRecorded [0, 0] 0)
   \<and> calls (vote_handler (vote_request ''10.0.0.1'' ''fpA'' (JNum (1 / 2))) 2000 2001 red_blue_store)
       = [GetPoll ''abc12345'', HasVotedByIP ''abc12345'' ''10.0.0.1'',
          HasVotedByFingerprint ''abc12345'' ''fpA'',
          GetRecentVoteCount ''abc12345'' ''10.0.0.1'' 300000,
          AddVote ''abc12345'' (1 / 2) ''10.0.0.1'' ''fpA'', GetPoll ''abc12345'']"
  by (simp add: example_defs store_defs route_defs admission_order_def)

text \<open>
  C9. When no vote for the poll from the address is stored, the count of recent votes for
  the poll from the address is zero for every window and every clock reading; so the
  handler, which asks the duplicate-by-address question first, never gives the
  rate-limited reply.
\<close>

theorem velocity_branch_unreachable:
  "(\<not> hasVotedByIP s pollId ipAddress \<longrightarrow> getRecentVoteCount s pollId ipAddress w now = 0)
   \<and> status (reply (vote_handler req t_check t_commit s)) \<noteq> 429
   \<and> reply (vote_handler req t_check t_commit s) \<noteq> rejection Velocity"
proof -
  have "status (reply (vote_handler req t_check t_commit s)) \<noteq> 429"
    using vote_handler_cases [of req t_check t_commit s] by auto
  moreover then have "reply (vote_handler req t_check t_commit s) \<noteq> rejection Velocity"
    by auto
  ultimately show ?thesis by (simp add: no_vote_no_recent)
qed

theorem velocity_branch_unreachable_witness:
  "\<not> hasVotedByIP voted_store ''abc12345'' ''10.0.0.2''
   \<and> getRecentVoteCount voted_store ''abc12345'' ''10.0.0.2'' VOTE_RATE_WINDOW_MS 5000 = 0
   \<and> status (reply (vote_handler (vote_request ''10.0.0.2'' ''fpB'' (JNum 1)) 5000 5001 voted_store)) \<noteq> 429"
proof -
  have h: "\<not> hasVotedByIP voted_store ''abc12345'' ''10.0.0.2''"
    by (simp add: hasVotedByIP_def voted_store_def)
  show ?thesis
    using h velocity_branch_unreachable
      [of voted_store "''abc12345''" "''10.0.0.2''" VOTE_RATE_WINDOW_MS 5000
          "vote_request ''10.0.0.2'' ''fpB'' (JNum 1)" 5000 5001]
    by simp
qed

text \<open>
  C5. A vote attempt that is turned down (by a limiter, by the body checks, for an unknown
  poll or by an admission check) leaves the store as it was: no vote row is added, no
  \<open>vote_count\<close> changes, and \<open>getPoll\<close> returns what it returned before. The same
  holds after any number of rejected attempts in a row.
\<close>

theorem rejected_vote_no_mutation:
  "(status (reply (vote_endpoint api_over vote_over req t_check t_commit s)) \<noteq> 200 \<longrightarrow>
      db (vote_endpoint api_over vote_over req t_check t_commit s) = s
      \<and> votes (db (vote_endpoint api_over vote_over req t_check t_commit s)) = votes s
      \<and> map p_vote_count (polls (db (vote_endpoint api_over vote_over req t_check t_commit s)))
          = map p_vote_count (polls s)
      \<and> getPoll (db (vote_endpoint api_over vote_over req t_check t_commit s)) pollId = getPoll s pollId)
   \<and> (all_rejected evs srv \<longrightarrow>
        database (run evs srv) = database srv
        \<and> getPoll (database (run evs srv)) pollId = getPoll (database srv) pollId)"
  using vote_endpoint_rejected [of api_over vote_over req t_check t_commit s]
    all_rejected_run [of evs srv]
  by auto

theorem rejected_vote_no_mutation_witness:
  "status (reply (vote_endpoint False False (vote_request ''10.0.0.1'' ''fpB'' (JNum 1)) 5000 5001 voted_store)) \<noteq> 200
   \<and> db (vote_endpoint False False (vote_request ''10.0.0.1'' ''fpB'' (JNum 1)) 5000 5001 voted_store) = voted_store
   \<and> all_rejected
        [Http_vote False False (vote_request ''10.0.0.1'' ''fpB'' (JNum 1)) 5000 5001,
         Http_vote False False (vote_request ''10.0.0.3'' ''fpC'' (JNum 5)) 6000 6001]
        \<lparr>database = voted_store, rooms = [], sent = []\<rparr>
   \<and> getPoll (database (run
        [Http_vote False False (vote_request ''10.0.0.1'' ''fpB'' (JNum 1)) 5000 5001,
         Http_vote False False (vote_request ''10.0.0.3'' ''fpC'' (JNum 5)) 6000 6001]
        \<lparr>database = voted_store, rooms = [], sent = []\<rparr>)) ''abc12345''
      = Some \<lparr>row = red_blue\<lparr>p_vote_count := 1\<rparr>, results = [1, 0]\<rparr>"
  (is "?rejected \<and> ?same \<and> all_rejected ?evs ?srv \<and> ?tally")
proof -
  note fact = rejected_vote_no_mutation
      [of False False "vote_request ''10.0.0.1'' ''fpB'' (JNum 1)" 5000 5001 voted_store
          "''abc12345''" ?evs ?srv]
  have r1: "reply (vote_endpoint False False (vote_request ''10.0.0.1'' ''fpB'' (JNum 1)) 5000 5001 voted_store)
            = Response 403 (Failure You_have_already_voted)"
    by (simp add: example_defs store_defs route_defs)
  then have rejected: ?rejected by simp
  with fact have same: ?same by blast
  have r2: "reply (vote_endpoint False False (vote_request ''10.0.0.3'' ''fpC'' (JNum 5)) 6000 6001 voted_store)
            = Response 400 (Failure Invalid_option_index)"
    by (simp add: example_defs store_defs route_defs)
  have rej: "all_rejected ?evs ?srv"
    by (simp add: same r1 r2)
  with fact have "getPoll (database (run ?evs ?srv)) ''abc12345'' = getPoll (database ?srv) ''abc12345''"
    by blast
  moreover have "getPoll (database ?srv) ''abc12345''
      = Some \<lparr>row = red_blue\<lparr>p_vote_count := 1\<rparr>, results = [1, 0]\<rparr>"
    by (simp add: example_defs store_defs)
  ultimately have tally: ?tally by (rule trans)
  from rejected same rej tally show ?thesis by (intro conjI)
qed

text \<open>
  C4. The claim: a vote request whose \<open>optionIndex\<close> is not an integer is turned down
  before any admission check, and only integers in the option range are committed. The
  code checks the type and the sign of \<open>optionIndex\<close> and that it is below the number
  of options, never that it is integral: on the two-option example poll the index \<open>1/2\<close>
  is accepted, the vote row is stored with \<open>option_index = 1/2\<close>, and the tally in the
  reply counts no vote.
\<close>

theorem fractional_option_index_committed:
  "reply (vote_route (vote_request ''10.0.0.1'' ''fpA'' (JNum (1 / 2))) 2000 2001 red_blue_store)
     = Response 200 (VoteRecorded [0, 0] 0)
   \<and> votes (db (vote_route (vote_request ''10.0.0.1'' ''fpA'' (JNum (1 / 2))) 2000 2001 red_blue_store))
     = [\<lparr>v_poll_id = ''abc12345'', v_option_index = 1 / 2, v_ip_address = ''10.0.0.1'',
         v_fingerprint = ''fpA'', v_voted_at = 2001\<rparr>]"
  by (simp add: example_defs store_defs route_defs)

subsection \<open>Store invariant\<close>

lemma find_Some_mem: "find P xs = Some x \<Longrightarrow> x \<in> set xs \<and> P x"
  by (induction xs) (auto split: if_splits)

lemma getPoll_Some_id: "getPoll s pid = Some p \<Longrightarrow> pid \<in> set (map p_id (polls s)) \<and> p_id (row p) = pid"
  by (auto simp: getPoll_def split: option.splits dest!: find_Some_mem)

lemma consistent_empty: "consistent empty_store"
  by (simp add: consistent_def empty_store_def)

lemma consistent_createPoll:
  assumes "consistent s" and "createPoll s ident q opts now = Inr s'"
  shows "consistent s'"
proof -
  from assms(2) have fresh: "ident \<notin> set (map p_id (polls s))"
    and s': "s' = s\<lparr>polls := polls s @ [\<lparr>p_id = ident, p_question = q, p_options = opts,
                 p_created_at = now, p_vote_count = 0\<rparr>]\<rparr>"
    by (auto simp: createPoll_def split: if_splits)
  from assms(1) fresh have none: "votes_of s ident = []"
    by (auto simp: consistent_def votes_of_def filter_empty_conv)
  from assms(1) fresh none show ?thesis
    unfolding s' by (auto simp: consistent_def votes_of_def)
qed

lemma consistent_addVote:
  assumes c: "consistent s" and m: "pid \<in> set (map p_id (polls s))"
  shows "consistent (addVote s pid oi ip fp t)"
proof -
  let ?f = "\<lambda>p. if p_id p = pid then p\<lparr>p_vote_count := p_vote_count p + 1\<rparr> else p"
  have comp: "p_id \<circ> ?f = p_id"
    by (rule ext) simp
  have ids: "map p_id (polls (addVote s pid oi ip fp t)) = map p_id (polls s)"
    by (simp add: addVote_def comp)
  have d: "distinct (map p_id (polls (addVote s pid oi ip fp t)))"
    using c unfolding ids by (simp add: consistent_def)
  have v: "\<forall>v \<in> set (votes (addVote s pid oi ip fp t)).
             v_poll_id v \<in> set (map p_id (polls (addVote s pid oi ip fp t)))"
    unfolding ids using c m by (auto simp: consistent_def addVote_def)
  have n: "\<forall>p \<in> set (polls (addVote s pid oi ip fp t)).
             p_vote_count p = length (votes_of (addVote s pid oi ip fp t) (p_id p))"
    using c by (auto simp: consistent_def addVote_def votes_of_def)
  from d v n show ?thesis
    unfolding consistent_def by (intro conjI)
qed

lemma consistent_vote_endpoint:
  assumes "consistent s"
  shows "consistent (db (vote_endpoint a v req t1 t2 s))"
  using vote_endpoint_cases [of a v req t1 t2 s] assms
  by (auto simp: consistent_addVote dest: getPoll_Some_id)

lemma create_poll_endpoint_cases:
  "db (create_poll_endpoint a c req pid now s) = s
   \<or> (\<exists>q opts s'. createPoll s pid q opts now = Inr s' \<and> db (create_poll_endpoint a c req pid now s) = s')"
  by (auto simp: create_poll_endpoint_def limiter_def reject_def create_poll_route_def
      create_poll_handler_def split: option.splits sum.splits)

lemma consistent_create_poll_endpoint:
  assumes "consistent s"
  shows "consistent (db (create_poll_endpoint a c req pid now s))"
  using create_poll_endpoint_cases [of a c req pid now s] assms
  by (auto dest: consistent_createPoll)

lemma database_on_join_poll: "database (on_join_poll k pid srv) = database srv"
  by (simp add: on_join_poll_def join_def Let_def split: option.splits)

lemma database_on_vote_submitted: "database (on_vote_submitted pid srv) = database srv"
  by (simp add: on_vote_submitted_def split: option.splits)

lemma database_on_leave_poll: "database (on_leave_poll k pid srv) = database srv"
  by (simp add: on_leave_poll_def leave_def)

lemma consistent_step: "consistent (database srv) \<Longrightarrow> consistent (database (step e srv))"
  by (cases e)
     (simp_all add: consistent_vote_endpoint consistent_create_poll_endpoint
        database_on_join_poll database_on_vote_submitted database_on_leave_poll)

lemma consistent_run: "consistent (database srv) \<Longrightarrow> consistent (database (run evs srv))"
  by (induction evs arbitrary: srv) (simp_all add: consistent_step)

text \<open>
  C10. In every state the server reaches from the empty store, the \<open>vote_count\<close> column
  of each poll equals the number of vote rows stored for that poll: \<open>addVote\<close> adds the row
  and increments the counter in one step, and nothing else writes either.
\<close>

theorem vote_count_matches_vote_rows:
  "\<forall>p \<in> set (polls (database (run evs init_server))).
      p_vote_count p = length (votes_of (database (run evs init_server)) (p_id p))"
proof -
  have "consistent (database init_server)"
    by (simp add: init_server_def consistent_empty)
  then have "consistent (database (run evs init_server))"
    by (rule consistent_run)
  then show ?thesis by (simp add: consistent_def)
qed

theorem vote_count_matches_vote_rows_witness:
  "polls (database (run [create_red_blue,
       Http_vote False False (vote_request ''10.0.0.1'' ''fpA'' (JNum 0)) 2000 2000] init_server))
     = [red_blue\<lparr>p_vote_count := 1\<rparr>]
   \<and> length (votes_of (database (run [create_red_blue,
       Http_vote False False (vote_request ''10.0.0.1'' ''fpA'' (JNum 0)) 2000 2000] init_server))
         ''abc12345'') = 1"
proof -
  let ?evs = "[create_red_blue, Http_vote False False (vote_request ''10.0.0.1'' ''fpA'' (JNum 0)) 2000 2000]"
  have d: "database (run ?evs init_server) = voted_store"
    by (simp add: create_red_blue_db vote_A_accepted)
  have p: "polls (database (run ?evs init_server)) = [red_blue\<lparr>p_vote_count := 1\<rparr>]"
    unfolding d by (simp add: voted_store_def)
  have "p_vote_count (red_blue\<lparr>p_vote_count := 1\<rparr>)
          = length (votes_of (database (run ?evs init_server)) (p_id (red_blue\<lparr>p_vote_count := 1\<rparr>)))"
    using vote_count_matches_vote_rows [of ?evs] unfolding p by simp
  then have "length (votes_of (database (run ?evs init_server)) ''abc12345'') = 1"
    by (simp add: red_blue_def)
  with p show ?thesis by (intro conjI)
qed

subsection \<open>Poll creation\<close>

lemma validate_options_None:
  "validate_options i os = None \<Longrightarrow> list_all option_within_limits os"
proof (induction os arbitrary: i)
  case Nil
  then show ?case by simp
next
  case (Cons opt rest)
  then show ?case
    by (cases opt) (auto split: if_splits)
qed

lemma validate_options_Some:
  "validate_options i os = Some e \<Longrightarrow> validation_failure e"
proof (induction os arbitrary: i)
  case Nil
  then show ?case by simp
next
  case (Cons opt rest)
  then show ?case
    by (cases opt) (auto split: if_splits)
qed

lemma validatePollData_Inr:
  "validatePollData q os = Inr x \<Longrightarrow> within_limits q os"
  by (cases q; cases os)
     (auto simp: validatePollData_def split: if_splits option.splits dest: validate_options_None)

lemma validatePollData_Inl:
  "validatePollData q os = Inl e \<Longrightarrow> validation_failure e"
  by (cases q; cases os)
     (auto simp: validatePollData_def split: if_splits option.splits dest: validate_options_Some)

lemma create_poll_route_cases:
  "(\<exists>e. validation_failure e \<and> reply (create_poll_route req pid now s) = Response 400 (Failure e)
        \<and> db (create_poll_route req pid now s) = s)
   \<or> (request_within_limits req
       \<and> (status (reply (create_poll_route req pid now s)) = 500
             \<and> db (create_poll_route req pid now s) = s
           \<or> status (reply (create_poll_route req pid now s)) = 201))"
proof (cases "body req")
  case None
  then show ?thesis
    by (simp add: create_poll_route_def requireBody_def)
next
  case (Some b)
  show ?thesis
  proof (cases "validatePollData (field b ''question'') (field b ''options'')")
    case (Inl e)
    then have "validation_failure e" by (rule validatePollData_Inl)
    with Some Inl show ?thesis
      by (simp add: create_poll_route_def requireBody_def create_poll_handler_def reject_def)
  next
    case (Inr x)
    then have "within_limits (field b ''question'') (field b ''options'')"
      by (rule validatePollData_Inr)
    with Some have w: "request_within_limits req"
      by (simp add: request_within_limits_def)
    have ne: "b \<noteq> []"
      using Inr by (cases b) (auto simp: validatePollData_def field_def)
    show ?thesis
      using Some Inr w ne
      by (cases x)
        (auto simp: create_poll_route_def requireBody_def create_poll_handler_def reject_def
          split: sum.splits)
  qed
qed

text \<open>
  C8. A creation request is accepted (201) only if its question is a non-empty string of at
  most 500 characters and its options are a list of 2 to 10 non-empty strings of at most
  200 characters each. A request outside these limits creates no poll; the route answers it
  with a 400 validation error (behind the limiters, which answer first when the client is
  over its quota).
\<close>

theorem create_poll_limits:
  "(status (reply (create_poll_endpoint api_over create_over req pollId now s)) = 201
      \<longrightarrow> request_within_limits req)
   \<and> (\<not> request_within_limits req \<longrightarrow>
        db (create_poll_endpoint api_over create_over req pollId now s) = s
        \<and> (\<exists>e. validation_failure e
               \<and> reply (create_poll_route req pollId now s) = Response 400 (Failure e))
        \<and> (\<not> api_over \<and> \<not> create_over \<longrightarrow>
              create_poll_endpoint api_over create_over req pollId now s
                = create_poll_route req pollId now s))"
  using create_poll_route_cases [of req pollId now s]
  by (auto simp: create_poll_endpoint_def limiter_def reject_def)

theorem create_poll_limits_witness:
  "status (reply (create_poll_endpoint False False
       (create_request (JStr ''Colour?'') (JArr [JStr ''Red'', JStr ''Blue''])) ''abc12345'' 1000 empty_store)) = 201
   \<and> request_within_limits (create_request (JStr ''Colour?'') (JArr [JStr ''Red'', JStr ''Blue'']))
   \<and> \<not> request_within_limits (create_request (JStr ''Colour?'') (JArr [JStr ''Red'']))
   \<and> db (create_poll_endpoint False False
       (create_request (JStr ''Colour?'') (JArr [JStr ''Red''])) ''abc12345'' 1000 empty_store) = empty_store"
proof -
  have ok: "status (reply (create_poll_endpoint False False
       (create_request (JStr ''Colour?'') (JArr [JStr ''Red'', JStr ''Blue''])) ''abc12345'' 1000 empty_store)) = 201"
    by (simp add: example_defs store_defs route_defs create_defs)
  have bad: "\<not> request_within_limits (create_request (JStr ''Colour?'') (JArr [JStr ''Red'']))"
    by (simp add: request_within_limits_def create_request_def field_def)
  show ?thesis
    using ok bad
      create_poll_limits [of False False
        "create_request (JStr ''Colour?'') (JArr [JStr ''Red'', JStr ''Blue''])" "''abc12345''" 1000 empty_store]
      create_poll_limits [of False False
        "create_request (JStr ''Colour?'') (JArr [JStr ''Red''])" "''abc12345''" 1000 empty_store]
    by blast
qed

subsection \<open>Real-time channel\<close>


lemma vote_handler_accepted:
  assumes "reply (vote_handler req t1 t2 s) = Response 200 (VoteRecorded rs tot)"
  shows "\<exists>b pid oi fp ip p'. body req = Some b
           \<and> validateVoteData (field b ''pollId'') (field b ''optionIndex'') (field b ''fingerprint'') = Inr (pid, oi, fp)
           \<and> getClientIp req = Inr ip
           \<and> db (vote_handler req t1 t2 s) = addVote s pid oi ip fp t2
           \<and> getPoll (addVote s pid oi ip fp t2) pid = Some p'
           \<and> rs = results p' \<and> tot = totalVotes (results p')
           \<and> calls (vote_handler req t1 t2 s) =
               [GetPoll pid, HasVotedByIP pid ip, HasVotedByFingerprint pid fp,
                GetRecentVoteCount pid ip VOTE_RATE_WINDOW_MS, AddVote pid oi ip fp, GetPoll pid]"
  using assms
  by (auto simp: vote_handler_def reject_def Let_def split: option.splits sum.splits if_splits)

lemma vote_endpoint_accepted:
  assumes "reply (vote_endpoint a v req t1 t2 s) = Response 200 (VoteRecorded rs tot)"
  shows "vote_endpoint a v req t1 t2 s = vote_handler req t1 t2 s"
  using assms
  by (auto simp: vote_endpoint_def limiter_def reject_def vote_route_def requireBody_def
      validatePollId_def split: option.splits if_splits)

lemma validateVoteData_pollId:
  "validateVoteData a b c = Inr (pid, oi, fp) \<Longrightarrow> a = JStr pid"
  by (auto simp: validateVoteData_def split: jsval.splits if_splits)



text \<open>
  C3 as stated fails: the vote handler makes no broadcast. Socket 7 watches the example
  poll; after the vote of \<open>10.0.0.1\<close> is accepted with the tally \<open>[1, 0]\<close>, the only
  message socket 7 has received is the snapshot of its own join.
\<close>

theorem accepted_vote_no_broadcast_counterexample:
  "reply (vote_endpoint False False (vote_request ''10.0.0.1'' ''fpA'' (JNum 0)) 2000 2000
            (database (run [create_red_blue, Join_poll 7 ''abc12345''] init_server)))
     = Response 200 (VoteRecorded [1, 0] 1)
   \<and> members (run [create_red_blue, Join_poll 7 ''abc12345''] init_server) (room_name ''abc12345'') = [7]
   \<and> sent (run [create_red_blue, Join_poll 7 ''abc12345'',
                 Http_vote False False (vote_request ''10.0.0.1'' ''fpA'' (JNum 0)) 2000 2000] init_server)
     = sent (run [create_red_blue, Join_poll 7 ''abc12345''] init_server)
   \<and> sent (run [create_red_blue, Join_poll 7 ''abc12345''] init_server)
     = [(7, Poll_data ''abc12345'' ''Colour?'' [''Red'', ''Blue''] [0, 0] 0)]"
proof -
  have r: "run [create_red_blue, Join_poll 7 ''abc12345'',
                 Http_vote False False (vote_request ''10.0.0.1'' ''fpA'' (JNum 0)) 2000 2000] init_server
           = step (Http_vote False False (vote_request ''10.0.0.1'' ''fpA'' (JNum 0)) 2000 2000)
               (run [create_red_blue, Join_poll 7 ''abc12345''] init_server)"
    by simp
  show ?thesis
    unfolding r watched_server_reached
    by (simp add: vote_A_accepted watched_server_def members_def room_name_def)
qed

text \<open>
  C3, as amended. The vote handler reads the tally once after the commit and returns it in
  the reply; it emits nothing and changes no room. The broadcast is made by the
  \<open>vote-submitted\<close> socket handler, from its own read: handled right after the accepted
  vote, it sends exactly one \<open>poll-updated\<close> message to each current member of the poll's
  room, with the tally and total of the HTTP reply.
\<close>

theorem accepted_vote_response_and_broadcast:
  assumes acc: "reply (vote_endpoint api_over vote_over req t_check t_commit (database srv))
                  = Response 200 (VoteRecorded rs tot)"
    and b: "body req = Some b"
    and pid: "field b ''pollId'' = JStr pollId"
  shows "sent (step (Http_vote api_over vote_over req t_check t_commit) srv) = sent srv
       \<and> rooms (step (Http_vote api_over vote_over req t_check t_commit) srv) = rooms srv
       \<and> (\<exists>p. getPoll (database (step (Http_vote api_over vote_over req t_check t_commit) srv)) pollId = Some p
              \<and> rs = results p \<and> tot = totalVotes (results p))
       \<and> (\<exists>oi ip fp. calls (vote_endpoint api_over vote_over req t_check t_commit (database srv))
              = [GetPoll pollId, HasVotedByIP pollId ip, HasVotedByFingerprint pollId fp,
                 GetRecentVoteCount pollId ip VOTE_RATE_WINDOW_MS, AddVote pollId oi ip fp,
                 GetPoll pollId])
       \<and> sent (step (Vote_submitted sock pollId)
                  (step (Http_vote api_over vote_over req t_check t_commit) srv))
           = sent srv @ map (\<lambda>k. (k, Poll_updated rs tot)) (members srv (room_name pollId))"
proof -
  let ?s = "database srv"
  have eq: "vote_endpoint api_over vote_over req t_check t_commit ?s = vote_handler req t_check t_commit ?s"
    using acc by (rule vote_endpoint_accepted)
  with acc have "reply (vote_handler req t_check t_commit ?s) = Response 200 (VoteRecorded rs tot)"
    by simp
  from vote_handler_accepted [OF this] obtain b' pid' oi fp ip p' where
    b': "body req = Some b'"
    and v: "validateVoteData (field b' ''pollId'') (field b' ''optionIndex'') (field b' ''fingerprint'') = Inr (pid', oi, fp)"
    and d: "db (vote_handler req t_check t_commit ?s) = addVote ?s pid' oi ip fp t_commit"
    and g: "getPoll (addVote ?s pid' oi ip fp t_commit) pid' = Some p'"
    and r: "rs = results p'" "tot = totalVotes (results p')"
    and c: "calls (vote_handler req t_check t_commit ?s) =
               [GetPoll pid', HasVotedByIP pid' ip, HasVotedByFingerprint pid' fp,
                GetRecentVoteCount pid' ip VOTE_RATE_WINDOW_MS, AddVote pid' oi ip fp, GetPoll pid']"
    by blast
  from b b' have "b' = b" by simp
  with v pid have same: "pid' = pollId"
    using validateVoteData_pollId [OF v] by simp
  have ne: "pollId \<noteq> []"
    using v pid \<open>b' = b\<close> same by (auto simp: validateVoteData_def split: if_splits)
  have mem: "members (srv\<lparr>database := x\<rparr>) = members srv" for x
    by (rule ext) (simp add: members_def)
  show ?thesis
    using eq d g r c same ne
    by (simp add: on_vote_submitted_def mem)
qed

theorem accepted_vote_response_and_broadcast_witness:
  "reply (vote_endpoint False False (vote_request ''10.0.0.1'' ''fpA'' (JNum 0)) 2000 2000
            (database watched_server))
     = Response 200 (VoteRecorded [1, 0] 1)
   \<and> sent (step (Http_vote False False (vote_request ''10.0.0.1'' ''fpA'' (JNum 0)) 2000 2000)
              watched_server) = []
   \<and> sent (step (Vote_submitted 3 ''abc12345'')
             (step (Http_vote False False (vote_request ''10.0.0.1'' ''fpA'' (JNum 0)) 2000 2000)
                watched_server))
     = [(7, Poll_updated [1, 0] 1)]"
proof -
  have acc: "reply (vote_endpoint False False (vote_request ''10.0.0.1'' ''fpA'' (JNum 0)) 2000 2000
            (database watched_server)) = Response 200 (VoteRecorded [1, 0] 1)"
    by (simp add: watched_server_def vote_A_accepted)
  have b: "body (vote_request ''10.0.0.1'' ''fpA'' (JNum 0))
            = Some [(''pollId'', JStr ''abc12345''), (''optionIndex'', JNum 0), (''fingerprint'', JStr ''fpA'')]"
    by (simp add: vote_request_def)
  have f: "field [(''pollId'', JStr ''abc12345''), (''optionIndex'', JNum 0), (''fingerprint'', JStr ''fpA'')]
             ''pollId'' = JStr ''abc12345''"
    by (simp add: field_def)
  have m: "members watched_server (room_name ''abc12345'') = [7]"
    by (simp add: watched_server_def members_def room_name_def)
  have s: "sent watched_server = []"
    by (simp add: watched_server_def)
  from accepted_vote_response_and_broadcast [OF acc b f, of 3] acc show ?thesis
    unfolding m s by simp
qed

subsection \<open>Tally\<close>

text \<open>
  When every committed option index is a whole number, the tally of \<open>getPoll\<close> has one
  count per option and sums to the number of vote rows of the poll.
\<close>

lemma foldl_plus_sum_list: "foldl (\<lambda>a b. a + b) a rs = a + sum_list rs" for a :: nat
  by (induction rs arbitrary: a) auto

lemma totalVotes_sum_list: "totalVotes rs = sum_list rs"
  by (simp add: totalVotes_def foldl_plus_sum_list)

lemma find_index_upt: "i < n \<Longrightarrow> find (\<lambda>j. j = i) [0..<n] = Some (i::nat)"
  by (simp add: find_Some_iff) (rule exI [of _ i], simp)

lemma record_count_index:
  "i < length rs \<Longrightarrow> record_count rs (of_nat i, c) = rs[i := c]"
  by (simp add: record_count_def set_element_def find_index_upt)

lemma foldl_record_count:
  assumes "distinct ks" and "\<forall>k \<in> set ks. k < length rs"
  shows "length (foldl record_count rs (map (\<lambda>i. (of_nat i, c i)) ks)) = length rs
       \<and> (\<forall>j < length rs. foldl record_count rs (map (\<lambda>i. (of_nat i, c i)) ks) ! j
             = (if j \<in> set ks then c j else rs ! j))"
  using assms
proof (induction ks arbitrary: rs)
  case Nil
  then show ?case by simp
next
  case (Cons k ks)
  have k: "k < length rs" using Cons.prems by simp
  have step: "record_count rs (of_nat k, c k) = rs[k := c k]"
    using k by (rule record_count_index)
  have "distinct ks" and "\<forall>i \<in> set ks. i < length (rs[k := c k])" and nk: "k \<notin> set ks"
    using Cons.prems by simp_all
  from Cons.IH [OF this(1,2)] nk k show ?case
    by (auto simp: step nth_list_update)
qed

lemma count_one_index:
  assumes "i < n"
  shows "sum_list (map (\<lambda>j. if i = j then 1 else 0) [0..<n]) = (1::nat)"
proof -
  have "sum_list (map (\<lambda>j. if i = j then 1 else 0) [0..<n]) = (\<Sum>j\<in>set [0..<n]. if i = j then 1 else (0::nat))"
    by (rule sum_list_distinct_conv_sum_set) simp
  also have "\<dots> = 1" using assms by simp
  finally show ?thesis .
qed

lemma counts_cover:
  assumes "\<forall>v \<in> set vs. \<exists>i < n. f v = (of_nat i :: rat)"
  shows "sum_list (map (\<lambda>j. length (filter (\<lambda>v. f v = of_nat j) vs)) [0..<n]) = length vs"
  using assms
proof (induction vs)
  case Nil
  then show ?case by simp
next
  case (Cons v vs)
  then obtain i where i: "i < n" "f v = of_nat i" by auto
  have "sum_list (map (\<lambda>j. length (filter (\<lambda>v. f v = of_nat j) (v # vs))) [0..<n])
        = sum_list (map (\<lambda>j. (if (of_nat i :: rat) = of_nat j then 1 else 0)
                               + length (filter (\<lambda>v. f v = of_nat j) vs)) [0..<n])"
    by (rule arg_cong [where f = sum_list], rule map_cong) (auto simp: i)
  also have "\<dots> = sum_list (map (\<lambda>j. if (of_nat i :: rat) = of_nat j then 1 else 0) [0..<n])
                  + sum_list (map (\<lambda>j. length (filter (\<lambda>v. f v = of_nat j) vs)) [0..<n])"
    by (simp add: sum_list_addf)
  also have "\<dots> = 1 + length vs"
    using Cons i by (simp add: count_one_index)
  finally show ?case by simp
qed

lemma getPoll_results_integral:
  assumes g: "getPoll s pid = Some poll"
    and int: "\<forall>v \<in> set (votes_of s pid). \<exists>i < length (p_options (row poll)). v_option_index v = of_nat i"
  shows "results poll = map (\<lambda>j. length (filter (\<lambda>v. v_option_index v = of_nat j) (votes_of s pid)))
                          [0..<length (p_options (row poll))]"
proof -
  let ?vs = "votes_of s pid"
  let ?n = "length (p_options (row poll))"
  let ?cnt = "\<lambda>k. length (filter (\<lambda>v. v_option_index v = k) ?vs)"
  let ?keys = "remdups (map v_option_index ?vs)"
  let ?is = "map (\<lambda>k. nat \<lfloor>k\<rfloor>) ?keys"
  let ?zeros = "map (\<lambda>_. 0::nat) (p_options (row poll))"
  have res: "results poll = foldl record_count ?zeros (map (\<lambda>k. (k, ?cnt k)) ?keys)"
    using g by (auto simp: getPoll_def getVotesByPoll_def split: option.splits)
  have key_nat: "\<forall>k \<in> set ?keys. \<exists>i < ?n. k = of_nat i"
    using int by auto
  then have idx: "\<forall>k \<in> set ?keys. of_nat (nat \<lfloor>k\<rfloor>) = k \<and> nat \<lfloor>k\<rfloor> < ?n"
    by auto
  have keys_eq: "map (\<lambda>k. (k, ?cnt k)) ?keys = map (\<lambda>i. (of_nat i, ?cnt (of_nat i))) ?is"
    using idx by (simp add: comp_def)
  have inj: "inj_on (\<lambda>k. nat \<lfloor>k\<rfloor>) (set ?keys)"
  proof (rule inj_onI)
    fix x y assume "x \<in> set ?keys" "y \<in> set ?keys" "nat \<lfloor>x\<rfloor> = nat \<lfloor>y\<rfloor>"
    with idx show "x = y" by metis
  qed
  have d: "distinct ?is"
    unfolding distinct_map using inj by simp
  have b: "\<forall>i \<in> set ?is. i < length ?zeros"
    using idx by auto
  have len: "length (results poll) = ?n"
    using foldl_record_count [OF d b, of "\<lambda>i. ?cnt (of_nat i)"] by (simp add: res keys_eq)
  show ?thesis
  proof (rule nth_equalityI)
    show "length (results poll) = length (map (\<lambda>j. ?cnt (of_nat j)) [0..<?n])"
      using len by simp
  next
    fix j assume "j < length (results poll)"
    then have j: "j < ?n" using len by simp
    have nth: "results poll ! j = (if j \<in> set ?is then ?cnt (of_nat j) else 0)"
      using foldl_record_count [OF d b, of "\<lambda>i. ?cnt (of_nat i)"] j by (simp add: res keys_eq)
    have "?cnt (of_nat j) = 0" if "j \<notin> set ?is"
    proof -
      have "of_nat j \<notin> set ?keys"
      proof
        assume "of_nat j \<in> set ?keys"
        then have "nat \<lfloor>(of_nat j :: rat)\<rfloor> \<in> (\<lambda>k. nat \<lfloor>k\<rfloor>) ` set ?keys" by (rule imageI)
        then have "j \<in> set ?is" by simp
        with that show False by simp
      qed
      then show ?thesis by (force simp: filter_empty_conv image_iff)
    qed
    with nth j show "results poll ! j = map (\<lambda>j. ?cnt (of_nat j)) [0..<?n] ! j"
      by auto
  qed
qed

lemma tally_total_integral:
  assumes g: "getPoll s pid = Some poll"
    and int: "\<forall>v \<in> set (votes_of s pid). \<exists>i < length (p_options (row poll)). v_option_index v = of_nat i"
  shows "totalVotes (results poll) = length (votes_of s pid)"
  by (simp add: totalVotes_sum_list getPoll_results_integral [OF g int] counts_cover [OF int])

lemma validateVoteData_index:
  "validateVoteData a b c = Inr (pid, oi, fp) \<Longrightarrow> b = JNum oi"
  by (auto simp: validateVoteData_def split: jsval.splits if_splits)

lemma vote_handler_committed:
  assumes "db (vote_handler req t1 t2 s) \<noteq> s"
  shows "\<exists>b pid oi fp ip poll. body req = Some b \<and> field b ''optionIndex'' = JNum oi \<and> 0 \<le> oi
           \<and> getPoll s pid = Some poll \<and> oi < of_nat (length (p_options (row poll)))
           \<and> db (vote_handler req t1 t2 s) = addVote s pid oi ip fp t2"
proof -
  from assms obtain b where b: "body req = Some b"
    by (cases "body req") (auto simp: vote_handler_def reject_def)
  from assms b obtain pid oi fp where
    v: "validateVoteData (field b ''pollId'') (field b ''optionIndex'') (field b ''fingerprint'') = Inr (pid, oi, fp)"
    by (cases "validateVoteData (field b ''pollId'') (field b ''optionIndex'') (field b ''fingerprint'')")
       (auto simp: vote_handler_def reject_def)
  from assms b v obtain ip where ip: "getClientIp req = Inr ip"
    by (cases "getClientIp req") (auto simp: vote_handler_def reject_def)
  from assms b v ip obtain poll where p: "getPoll s pid = Some poll"
    by (cases "getPoll s pid") (auto simp: vote_handler_def reject_def)
  from assms b v ip p have lt: "oi < of_nat (length (p_options (row poll)))"
    and d: "db (vote_handler req t1 t2 s) = addVote s pid oi ip fp t2"
    by (auto simp: vote_handler_def reject_def Let_def split: if_splits option.splits)
  from v have "field b ''optionIndex'' = JNum oi" "0 \<le> oi"
    by (auto dest: validateVoteData_index validate_nonneg)
  with b p lt d show ?thesis by blast
qed

lemma vote_endpoint_committed:
  assumes "db (vote_endpoint a v req t1 t2 s) \<noteq> s"
  shows "\<exists>b pid oi fp ip poll. body req = Some b \<and> field b ''optionIndex'' = JNum oi \<and> 0 \<le> oi
           \<and> getPoll s pid = Some poll \<and> oi < of_nat (length (p_options (row poll)))
           \<and> db (vote_endpoint a v req t1 t2 s) = addVote s pid oi ip fp t2"
proof -
  from assms have "vote_endpoint a v req t1 t2 s = vote_handler req t1 t2 s"
    by (auto simp: vote_endpoint_def limiter_def reject_def vote_route_def requireBody_def
        validatePollId_def split: option.splits if_splits)
  with assms vote_handler_committed [of req t1 t2 s] show ?thesis by simp
qed

lemma find_distinct_id:
  "distinct (map p_id ps) \<Longrightarrow> p \<in> set ps \<Longrightarrow> find (\<lambda>q. p_id q = p_id p) ps = Some p"
  by (induction ps) (auto simp: image_iff)

lemma whole_index:
  assumes "r \<in> \<int>" and "0 \<le> r" and "r < of_nat n"
  shows "\<exists>i < n. r = (of_nat i :: rat)"
proof -
  from assms(1,2) obtain k where k: "r = of_nat k"
    using Nats_altdef2 [where 'a = rat] unfolding Nats_def by auto
  with assms(3) have "k < n" by simp
  with k show ?thesis by blast
qed

lemma in_range_addVote:
  assumes c: "consistent s" and r: "in_range s" and g: "getPoll s pid = Some poll"
    and i: "\<exists>i < length (p_options (row poll)). oi = of_nat i"
  shows "in_range (addVote s pid oi ip fp t)"
  unfolding in_range_def
proof (intro ballI impI)
  fix v p'
  assume v: "v \<in> set (votes (addVote s pid oi ip fp t))"
    and p': "p' \<in> set (polls (addVote s pid oi ip fp t))"
    and same: "p_id p' = v_poll_id v"
  from g have f: "find (\<lambda>p. p_id p = pid) (polls s) = Some (row poll)"
    by (auto simp: getPoll_def split: option.splits)
  from p' obtain p where p: "p \<in> set (polls s)"
    and pid': "p_id p' = p_id p" and opts': "p_options p' = p_options p"
    by (auto simp: addVote_def split: if_splits)
  from v consider (old) "v \<in> set (votes s)"
    | (new) "v_poll_id v = pid" "v_option_index v = oi"
    by (auto simp: addVote_def)
  then show "\<exists>i < length (p_options p'). v_option_index v = of_nat i"
  proof cases
    case old
    with r p same pid' have "\<exists>i < length (p_options p). v_option_index v = of_nat i"
      unfolding in_range_def by simp
    then show ?thesis by (simp only: opts')
  next
    case new
    from c p have "find (\<lambda>q. p_id q = p_id p) (polls s) = Some p"
      by (simp add: consistent_def find_distinct_id)
    with f same pid' new(1) have "p = row poll" by simp
    with i new(2) show ?thesis by (simp only: opts')
  qed
qed

lemma in_range_createPoll:
  assumes c: "consistent s" and r: "in_range s" and cr: "createPoll s ident q opts now = Inr s'"
  shows "in_range s'"
proof -
  from cr have fresh: "ident \<notin> set (map p_id (polls s))"
    and s': "s' = s\<lparr>polls := polls s @ [\<lparr>p_id = ident, p_question = q, p_options = opts,
                 p_created_at = now, p_vote_count = 0\<rparr>]\<rparr>"
    by (auto simp: createPoll_def split: if_splits)
  from c fresh have "\<forall>v \<in> set (votes s). v_poll_id v \<noteq> ident"
    by (auto simp: consistent_def)
  with r show ?thesis
    unfolding s' by (auto simp: in_range_def)
qed

lemma in_range_step:
  assumes c: "consistent (database srv)" and r: "in_range (database srv)"
    and iv: "integral_votes [e]"
  shows "in_range (database (step e srv))"
proof (cases e)
  case (Http_create_poll a cr req pid now)
  with create_poll_endpoint_cases [of a cr req pid now "database srv"] c r show ?thesis
    by (auto dest: in_range_createPoll)
next
  case (Http_vote a v req t1 t2)
  show ?thesis
  proof (cases "db (vote_endpoint a v req t1 t2 (database srv)) = database srv")
    case True
    with Http_vote r show ?thesis by simp
  next
    case False
    from vote_endpoint_committed [OF False] obtain b pid oi fp ip poll where
      b: "body req = Some b" and f: "field b ''optionIndex'' = JNum oi" and nn: "0 \<le> oi"
      and g: "getPoll (database srv) pid = Some poll"
      and lt: "oi < of_nat (length (p_options (row poll)))"
      and d: "db (vote_endpoint a v req t1 t2 (database srv)) = addVote (database srv) pid oi ip fp t2"
      by blast
    from iv Http_vote b f have "oi \<in> \<int>"
      by (simp add: integral_index_def)
    then have "\<exists>i < length (p_options (row poll)). oi = of_nat i"
      using nn lt by (rule whole_index)
    from in_range_addVote [OF c r g this] d Http_vote show ?thesis by simp
  qed
qed (simp_all add: r database_on_join_poll database_on_vote_submitted database_on_leave_poll)

lemma integral_votes_Cons: "integral_votes (e # es) = (integral_votes [e] \<and> integral_votes es)"
  by (cases e) simp_all

lemma in_range_run:
  "consistent (database srv) \<Longrightarrow> in_range (database srv) \<Longrightarrow> integral_votes evs
     \<Longrightarrow> in_range (database (run evs srv))"
proof (induction evs arbitrary: srv)
  case Nil
  then show ?case by simp
next
  case (Cons e es)
  from Cons.prems(3) have e: "integral_votes [e]" and es: "integral_votes es"
    using integral_votes_Cons [of e es] by simp_all
  have "consistent (database (step e srv))"
    using Cons.prems(1) by (rule consistent_step)
  moreover have "in_range (database (step e srv))"
    using Cons.prems(1,2) e by (rule in_range_step)
  ultimately show ?case
    using Cons.IH es by simp
qed

lemma tally_total_when_integral:
  assumes iv: "integral_votes evs"
    and g: "getPoll (database (run evs init_server)) pid = Some poll"
  shows "totalVotes (results poll) = length (votes_of (database (run evs init_server)) pid)"
proof -
  let ?s = "database (run evs init_server)"
  have c0: "consistent (database init_server)" and r0: "in_range (database init_server)"
    using consistent_empty by (simp_all add: init_server_def in_range_def empty_store_def)
  from in_range_run [OF c0 r0 iv] have r: "in_range ?s" .
  from g have "row poll \<in> set (polls ?s)" "p_id (row poll) = pid"
    by (auto simp: getPoll_def split: option.splits dest!: find_Some_mem)
  with r have "\<forall>v \<in> set (votes_of ?s pid). \<exists>i < length (p_options (row poll)). v_option_index v = of_nat i"
    by (auto simp: in_range_def votes_of_def)
  with g show ?thesis by (rule tally_total_integral)
qed

subsection \<open>Snapshot on join\<close>







text \<open>
  C2. The claim: in every reachable state the tally of \<open>getPoll\<close> sums to the number of
  accepted votes of the poll. After the example poll is created and a vote with the option
  index \<open>1/2\<close> is accepted, the poll has one vote row and its tally is \<open>[0, 0]\<close>: the
  vote is lost from the tally.
\<close>

theorem fractional_vote_lost_from_tally:
  "getPoll (database (run [create_red_blue,
       Http_vote False False (vote_request ''10.0.0.1'' ''fpA'' (JNum (1 / 2))) 2000 2000] init_server))
     ''abc12345''
     = Some \<lparr>row = red_blue\<lparr>p_vote_count := 1\<rparr>, results = [0, 0]\<rparr>
   \<and> totalVotes [0, 0] = 0
   \<and> length (votes_of (database (run [create_red_blue,
       Http_vote False False (vote_request ''10.0.0.1'' ''fpA'' (JNum (1 / 2))) 2000 2000] init_server))
     ''abc12345'') = 1"
  by (simp add: create_red_blue_db) (simp add: example_defs store_defs route_defs)

end
